theory Spec2Isabelle
  imports Main "HOL-Library.Sublist"
begin

section \<open>Data model of \<^verbatim>\<open>src/utils/utils.ts\<close>\<close>

text \<open>
  The identity of a component, as \<^verbatim>\<open>element.type\<close> holds it. The source compares it with
  \<^verbatim>\<open>===\<close> against the imported components and against React's \<^verbatim>\<open>Fragment\<close>;
  \<open>Component\<close> is any other identity (the caller in \<^verbatim>\<open>useTooltips\<close> builds a root whose
  type is the object \<^verbatim>\<open>{ name: 'Prism' }\<close>).
\<close>

datatype ctype =
    Area | Axis | AxisAnnotation | Bar | ChartPopover | ChartTooltip
  | Legend | Line | Trendline | Fragment | Component string

text \<open>
  The second parameter of \<^verbatim>\<open>getElement\<close> and \<^verbatim>\<open>getAllElements\<close> has the type
  \<^verbatim>\<open>typeof Axis | typeof Legend | typeof Line | typeof Bar | typeof ChartTooltip | typeof ChartPopover\<close>.
\<close>

datatype target_type = TAxis | TLegend | TLine | TBar | TChartTooltip | TChartPopover

fun component :: "target_type \<Rightarrow> ctype" where
  "component TAxis = Axis"
| "component TLegend = Legend"
| "component TLine = Line"
| "component TBar = Bar"
| "component TChartTooltip = ChartTooltip"
| "component TChartPopover = ChartPopover"

text \<open>
  The values a child position can hold (\<^verbatim>\<open>ChildElement<T>\<close>, \<^verbatim>\<open>Children<T>\<close> and the
  parameter type of \<^verbatim>\<open>getElement\<close>): \<^verbatim>\<open>undefined\<close>, a boolean, a string, a handler
  function (the child of a tooltip or popover), an array of such values, or an element
  with a \<^verbatim>\<open>type\<close> and \<^verbatim>\<open>props\<close>. Of the props the code reads \<^verbatim>\<open>name\<close> and
  \<^verbatim>\<open>children\<close>; \<open>None\<close> is a key that is not \<^verbatim>\<open>in\<close> the props object.
\<close>

datatype node =
    Undefined
  | BoolNode bool
  | StrNode string
  | Handler
  | Iter "node list"
  | Element (etype: ctype) (props_name: "string option") (props_children: "node option")

record MappedElement =
  name :: string
  element :: node

record ElementCounts =
  area :: int
  axis :: int
  axisAnnotation :: int
  bar :: int
  legend :: int
  line :: int

section \<open>Coercion and sanitization\<close>

text \<open>\<^verbatim>\<open>toArray\<close>: \<^verbatim>\<open>undefined\<close> gives \<^verbatim>\<open>[]\<close>, an array is returned as it is, any other
  value is wrapped.\<close>

fun toArray :: "node \<Rightarrow> node list" where
  "toArray Undefined = []"
| "toArray (Iter children) = children"
| "toArray child = [child]"


text \<open>\<^verbatim>\<open>Boolean(child && typeof child !== 'string' && typeof child !== 'boolean' &&
  'type' in child && child.type !== Fragment)\<close>. A function and an array are truthy
  objects without a \<^verbatim>\<open>type\<close> key.\<close>

fun isPrismComponent :: "node \<Rightarrow> bool" where
  "isPrismComponent (Element t n c) = (t \<noteq> Fragment)"
| "isPrismComponent child = False"








section \<open>The tokenizing pattern of \<^verbatim>\<open>toCamelCase\<close> and \<^verbatim>\<open>toSnakeCase\<close>\<close>

text \<open>
  The pattern is
  \<^verbatim>\<open>/[A-Z]{2,}(?=[A-Z][a-z]+\d*|\b)|[A-Z]?[a-z]+\d*|[A-Z]|\d+/g\<close>,
  without the \<^verbatim>\<open>i\<close> and \<^verbatim>\<open>u\<close> flags: the classes are the ASCII ones, and a word
  character (for \<^verbatim>\<open>\b\<close>) is an ASCII letter, a digit or the underscore. A character
  outside ASCII is in none of the classes.
\<close>

definition upperChars :: string where
  "upperChars = ''ABCDEFGHIJKLMNOPQRSTUVWXYZ''"

definition lowerChars :: string where
  "lowerChars = ''abcdefghijklmnopqrstuvwxyz''"

definition digitChars :: string where
  "digitChars = ''0123456789''"

definition isUpper :: "char \<Rightarrow> bool" where
  "isUpper c = (c \<in> set upperChars)"

definition isLower :: "char \<Rightarrow> bool" where
  "isLower c = (c \<in> set lowerChars)"

definition isDigit :: "char \<Rightarrow> bool" where
  "isDigit c = (c \<in> set digitChars)"

definition isWordChar :: "char \<Rightarrow> bool" where
  "isWordChar c = (isUpper c \<or> isLower c \<or> isDigit c \<or> c = CHR ''_'')"

text \<open>The lookahead \<^verbatim>\<open>(?=[A-Z][a-z]+\d*|\b)\<close> at the rest \<open>r\<close> of the input, right after
  an upper-case letter: either an upper-case letter and a lower-case one follow (the
  digits are optional), or the position is a word boundary, which after a word
  character means the end of the input or a non-word character.\<close>

fun lookahead :: "string \<Rightarrow> bool" where
  "lookahead [] = True"
| "lookahead [c] = (\<not> isWordChar c)"
| "lookahead (c # d # r) = ((isUpper c \<and> isLower d) \<or> \<not> isWordChar c)"

text \<open>\<^verbatim>\<open>[A-Z]{2,}\<close> is greedy and backtracks: the longest run of upper-case letters is
  tried first, then one letter less, down to two letters. \<open>matchUpperRun k s\<close> tries the
  run lengths from \<open>k\<close> down and gives the length of the match.\<close>

fun matchUpperRun :: "nat \<Rightarrow> string \<Rightarrow> nat option" where
  "matchUpperRun 0 s = None"
| "matchUpperRun (Suc k) s =
     (if Suc k < 2 then None
      else if lookahead (drop (Suc k) s) then Some (Suc k)
      else matchUpperRun k s)"

definition matchAlt1 :: "string \<Rightarrow> nat option" where
  "matchAlt1 s = matchUpperRun (length (takeWhile isUpper s)) s"

text \<open>\<^verbatim>\<open>[a-z]+\d*\<close>: both greedy, and nothing follows that could make them give back.\<close>

definition matchLowerDigits :: "string \<Rightarrow> nat option" where
  "matchLowerDigits s =
     (let lows = takeWhile isLower s in
      if lows = [] then None
      else Some (length lows + length (takeWhile isDigit (dropWhile isLower s))))"

text \<open>\<^verbatim>\<open>[A-Z]?[a-z]+\d*\<close>: the optional letter is taken when it is there; when the rest
  then fails, the pattern is tried again without it.\<close>

definition matchAlt2 :: "string \<Rightarrow> nat option" where
  "matchAlt2 s =
     (case s of
        [] \<Rightarrow> None
      | c # r \<Rightarrow>
          (if isUpper c then
             (case matchLowerDigits r of
                Some k \<Rightarrow> Some (Suc k)
              | None \<Rightarrow> matchLowerDigits s)
           else matchLowerDigits s))"

definition matchAlt3 :: "string \<Rightarrow> nat option" where
  "matchAlt3 s = (case s of [] \<Rightarrow> None | c # r \<Rightarrow> if isUpper c then Some 1 else None)"

definition matchAlt4 :: "string \<Rightarrow> nat option" where
  "matchAlt4 s = (let ds = takeWhile isDigit s in if ds = [] then None else Some (length ds))"

text \<open>The alternatives are tried in the order they are written; the first that matches
  at the position wins.\<close>

definition matchAt :: "string \<Rightarrow> nat option" where
  "matchAt s =
     (case matchAlt1 s of Some k \<Rightarrow> Some k | None \<Rightarrow>
      (case matchAlt2 s of Some k \<Rightarrow> Some k | None \<Rightarrow>
       (case matchAlt3 s of Some k \<Rightarrow> Some k | None \<Rightarrow> matchAlt4 s)))"

text \<open>\<^verbatim>\<open>str.match(/.../g)\<close>: every match from left to right. The search goes on at
  the end of a match (one character further after an empty match, as
  \<^verbatim>\<open>AdvanceStringIndex\<close> does), and one character further where nothing matches.
  JavaScript returns \<^verbatim>\<open>null\<close> when there is no match; here that is the empty list.\<close>

function matchAll :: "string \<Rightarrow> string list" where
  "matchAll s =
     (if s = [] then []
      else (case matchAt s of
              None \<Rightarrow> matchAll (tl s)
            | Some k \<Rightarrow> take k s # matchAll (drop (if k = 0 then 1 else k) s)))"
  by pat_completeness auto
termination
  by (relation "measure length") auto

text \<open>\<^verbatim>\<open>toLowerCase\<close> and \<^verbatim>\<open>toUpperCase\<close> on a token: a token holds ASCII letters and
  digits only, so the conversion is the ASCII one.\<close>

definition toLowerChar :: "char \<Rightarrow> char" where
  "toLowerChar c = (case map_of (zip upperChars lowerChars) c of Some l \<Rightarrow> l | None \<Rightarrow> c)"

definition toUpperChar :: "char \<Rightarrow> char" where
  "toUpperChar c = (case map_of (zip lowerChars upperChars) c of Some u \<Rightarrow> u | None \<Rightarrow> c)"

definition toLowerCase :: "string \<Rightarrow> string" where
  "toLowerCase w = map toLowerChar w"

definition toUpperCase :: "string \<Rightarrow> string" where
  "toUpperCase w = map toUpperChar w"

text \<open>The callback of \<^verbatim>\<open>words.map\<close> in \<^verbatim>\<open>toCamelCase\<close>:
  \<^verbatim>\<open>word.charAt(0).toUpperCase() + word.slice(1).toLowerCase()\<close>.\<close>

definition capitalize :: "string \<Rightarrow> string" where
  "capitalize word = toUpperCase (take 1 word) @ toLowerCase (drop 1 word)"

text \<open>\<^verbatim>\<open>words.join(sep)\<close>.\<close>

fun join :: "string \<Rightarrow> string list \<Rightarrow> string" where
  "join sep [] = []"
| "join sep [w] = w"
| "join sep (w # ws) = w @ sep @ join sep ws"

definition toCamelCase :: "string \<Rightarrow> string" where
  "toCamelCase str =
     (case matchAll str of
        [] \<Rightarrow> str
      | w # ws \<Rightarrow> join [] (toLowerCase w # map capitalize ws))"

definition toSnakeCase :: "string \<Rightarrow> string" where
  "toSnakeCase str =
     (case matchAll str of
        [] \<Rightarrow> str
      | w # ws \<Rightarrow> join ''_'' (map toLowerCase (w # ws)))"

section \<open>\<^verbatim>\<open>toggleStringArrayValue\<close>\<close>

text \<open>\<^verbatim>\<open>target.includes(value)\<close> is membership, \<^verbatim>\<open>target.filter((item) => item !== value)\<close>
  and \<^verbatim>\<open>[...target, value]\<close> build new arrays.\<close>

definition toggleStringArrayValue :: "string list \<Rightarrow> string \<Rightarrow> string list" where
  "toggleStringArrayValue target v =
     (if v \<in> set target then filter (\<lambda>item. item \<noteq> v) target else target @ [v])"

section \<open>Name derivation\<close>

text \<open>A counter is a JavaScript number that holds an integer; a template literal
  \<^verbatim>\<open>`${n}`\<close> writes it in decimal, with a minus sign when it is negative.\<close>

function showNat :: "nat \<Rightarrow> string" where
  "showNat n =
     (if n < 10 then [digitChars ! n]
      else showNat (n div 10) @ [digitChars ! (n mod 10)])"
  by pat_completeness auto
termination
  by (relation "measure id") auto

definition numberToString :: "int \<Rightarrow> string" where
  "numberToString i = (if i < 0 then CHR ''-'' # showNat (nat (- i)) else showNat (nat i))"

definition initElementCounts :: ElementCounts where
  "initElementCounts =
     \<lparr>area = - 1, axis = - 1, axisAnnotation = - 1, bar = - 1, legend = - 1, line = - 1\<rparr>"

text \<open>\<^verbatim>\<open>typeof element === 'object' && 'props' in element && 'name' in element.props &&
  element.props.name\<close>: of the values of the model only an element has \<^verbatim>\<open>props\<close>, and
  the name is truthy when it is a non-empty string.\<close>

fun getComponentName :: "node \<Rightarrow> string \<Rightarrow> string" where
  "getComponentName (Element t (Some n) c) defaultName =
     (if n \<noteq> [] then toCamelCase n else defaultName)"
| "getComponentName elem defaultName = defaultName"

text \<open>\<^verbatim>\<open>getElementName\<close> increments a counter of the \<^verbatim>\<open>elementCounts\<close> object it is
  given; the model returns the name together with the updated counters. The first
  test, \<^verbatim>\<open>typeof element !== 'object' || !('type' in element)\<close>, lets only elements
  through.\<close>

fun getElementName :: "node \<Rightarrow> ElementCounts \<Rightarrow> string \<times> ElementCounts" where
  "getElementName (Element t n c) elementCounts =
     (case t of
        Area \<Rightarrow>
          (let ec = elementCounts\<lparr>area := area elementCounts + 1\<rparr>
           in (getComponentName (Element t n c) (''area'' @ numberToString (area ec)), ec))
      | Axis \<Rightarrow>
          (let ec = elementCounts\<lparr>axis := axis elementCounts + 1\<rparr>
           in (getComponentName (Element t n c) (''axis'' @ numberToString (axis ec)), ec))
      | AxisAnnotation \<Rightarrow>
          (let ec = elementCounts\<lparr>axisAnnotation := axisAnnotation elementCounts + 1\<rparr>
           in (getComponentName (Element t n c)
                 (''Annotation'' @ numberToString (axisAnnotation ec)), ec))
      | Bar \<Rightarrow>
          (let ec = elementCounts\<lparr>bar := bar elementCounts + 1\<rparr>
           in (getComponentName (Element t n c) (''bar'' @ numberToString (bar ec)), ec))
      | Legend \<Rightarrow>
          (let ec = elementCounts\<lparr>legend := legend elementCounts + 1\<rparr>
           in (getComponentName (Element t n c) (''legend'' @ numberToString (legend ec)), ec))
      | Line \<Rightarrow>
          (let ec = elementCounts\<lparr>line := line elementCounts + 1\<rparr>
           in (getComponentName (Element t n c) (''line'' @ numberToString (line ec)), ec))
      | Trendline \<Rightarrow> (getComponentName (Element t n c) ''Trendline'', elementCounts)
      | _ \<Rightarrow> ('''', elementCounts))"
| "getElementName elem elementCounts = ('''', elementCounts)"

section \<open>Single-match traversal\<close>

text \<open>The first test of \<^verbatim>\<open>getElement\<close> returns \<^verbatim>\<open>undefined\<close> for every value that is
  not an element (falsy, boolean, string, or without a \<^verbatim>\<open>type\<close> key) and for a
  \<^verbatim>\<open>Fragment\<close>. \<open>getElement_loop\<close> is the \<^verbatim>\<open>for\<close> loop over
  \<^verbatim>\<open>toArray(element.props.children)\<close>; an element is truthy, so the loop returns at the
  first child whose search gives one.\<close>

function getElement :: "node \<Rightarrow> target_type \<Rightarrow> node option"
  and getElement_loop :: "node list \<Rightarrow> target_type \<Rightarrow> node option" where
  "getElement Undefined ty = None"
| "getElement (BoolNode b) ty = None"
| "getElement (StrNode s) ty = None"
| "getElement Handler ty = None"
| "getElement (Iter xs) ty = None"
| "getElement (Element t n c) ty =
     (if t = Fragment then None
      else if t = component ty then Some (Element t n c)
      else (case c of
              None \<Rightarrow> None
            | Some children \<Rightarrow> getElement_loop (toArray children) ty))"
| "getElement_loop [] ty = None"
| "getElement_loop (child # rest) ty =
     (case getElement child ty of
        Some desiredElement \<Rightarrow> Some desiredElement
      | None \<Rightarrow> getElement_loop rest ty)"
  by pat_completeness auto
termination
proof (relation "measure (\<lambda>x. case x of Inl (n, ty) \<Rightarrow> size n | Inr (cs, ty) \<Rightarrow> size_list size cs)")
  fix t :: ctype and n :: "string option" and c :: "node option" and ty children
  assume "c = Some children"
  moreover have "size_list size (toArray children) \<le> Suc (size children)"
    by (cases children) simp_all
  ultimately show "(Inr (toArray children, ty), Inl (Element t n c, ty))
      \<in> measure (\<lambda>x. case x of Inl (n, ty) \<Rightarrow> size n | Inr (cs, ty) \<Rightarrow> size_list size cs)"
    by simp
qed simp_all

section \<open>Exhaustive naming traversal\<close>

text \<open>\<^verbatim>\<open>[name, childName].filter(Boolean).join('')\<close>: the empty strings are dropped and
  the rest is joined without a separator.\<close>

definition composeName :: "string \<Rightarrow> string \<Rightarrow> string" where
  "composeName nm childName = join [] (filter (\<lambda>s. s \<noteq> []) [nm, childName])"

text \<open>\<open>getAllElements_loop\<close> is the \<^verbatim>\<open>for\<close> loop of \<^verbatim>\<open>getAllElements\<close>: it carries the
  \<^verbatim>\<open>elementCounts\<close> object that \<^verbatim>\<open>getElementName\<close> updates and the array
  \<^verbatim>\<open>desiredElements\<close> that \<^verbatim>\<open>push\<close> extends, and returns the latter.\<close>

function getAllElements ::
    "node \<Rightarrow> target_type \<Rightarrow> MappedElement list \<Rightarrow> string \<Rightarrow> MappedElement list"
  and getAllElements_loop ::
    "node list \<Rightarrow> target_type \<Rightarrow> MappedElement list \<Rightarrow> string \<Rightarrow> ElementCounts
       \<Rightarrow> MappedElement list \<Rightarrow> MappedElement list" where
  "getAllElements Undefined source elements nm = elements"
| "getAllElements (BoolNode b) source elements nm = elements"
| "getAllElements (StrNode s) source elements nm = elements"
| "getAllElements Handler source elements nm = elements"
| "getAllElements (Iter xs) source elements nm = elements"
| "getAllElements (Element t n c) source elements nm =
     (if t = Fragment then elements
      else if t = component source
        then elements @ [\<lparr>name = nm, element = Element t n c\<rparr>]
      else (case c of
              None \<Rightarrow> elements
            | Some children \<Rightarrow>
                elements @
                getAllElements_loop (toArray children) source elements nm initElementCounts []))"
| "getAllElements_loop [] source elements nm elementCounts desiredElements = desiredElements"
| "getAllElements_loop (child # rest) source elements nm elementCounts desiredElements =
     (case getElementName child elementCounts of
        (childName, elementCounts') \<Rightarrow>
          getAllElements_loop rest source elements nm elementCounts'
            (desiredElements @
             getAllElements child source elements (composeName nm childName)))"
  by pat_completeness auto
termination
proof (relation "measure (\<lambda>x. case x of
          Inl (n, source, elements, nm) \<Rightarrow> size n
        | Inr (cs, source, elements, nm, ec, des) \<Rightarrow> size_list size cs)")
  fix t :: ctype and n :: "string option" and c :: "node option"
    and source :: target_type and elements :: "MappedElement list" and nm :: string
    and children
  assume "c = Some children"
  moreover have "size_list size (toArray children) \<le> Suc (size children)"
    by (cases children) simp_all
  ultimately show
    "(Inr (toArray children, source, elements, nm, initElementCounts, []),
      Inl (Element t n c, source, elements, nm))
      \<in> measure (\<lambda>x. case x of
          Inl (n, source, elements, nm) \<Rightarrow> size n
        | Inr (cs, source, elements, nm, ec, des) \<Rightarrow> size_list size cs)"
    by simp
qed simp_all

section \<open>Notions used to state the properties\<close>

text \<open>The names that the loop of \<^verbatim>\<open>getAllElements\<close> gives to the children of one parent,
  in order: \<^verbatim>\<open>getElementName\<close> is called on each child with the same
  \<^verbatim>\<open>elementCounts\<close> object.\<close>

fun childNames :: "node list \<Rightarrow> ElementCounts \<Rightarrow> string list" where
  "childNames [] elementCounts = []"
| "childNames (child # rest) elementCounts =
     (case getElementName child elementCounts of
        (childName, elementCounts') \<Rightarrow> childName # childNames rest elementCounts')"

text \<open>The six counted kinds, the label that \<^verbatim>\<open>getElementName\<close> writes before the
  number, and the counter it increments.\<close>

definition countedKinds :: "ctype list" where
  "countedKinds = [Area, Axis, AxisAnnotation, Bar, Legend, Line]"

fun kindLabel :: "ctype \<Rightarrow> string" where
  "kindLabel Area = ''area''"
| "kindLabel Axis = ''axis''"
| "kindLabel AxisAnnotation = ''Annotation''"
| "kindLabel Bar = ''bar''"
| "kindLabel Legend = ''legend''"
| "kindLabel Line = ''line''"
| "kindLabel t = []"

fun counter :: "ctype \<Rightarrow> ElementCounts \<Rightarrow> int" where
  "counter Area ec = area ec"
| "counter Axis ec = axis ec"
| "counter AxisAnnotation ec = axisAnnotation ec"
| "counter Bar ec = bar ec"
| "counter Legend ec = legend ec"
| "counter Line ec = line ec"
| "counter t ec = 0"

text \<open>An element of kind \<open>t\<close>, whether it carries a name or not.\<close>

fun hasKind :: "ctype \<Rightarrow> node \<Rightarrow> bool" where
  "hasKind t (Element t' n c) = (t' = t)"
| "hasKind t child = False"


text \<open>The element of the first record of a result, if there is one.\<close>

definition headElement :: "MappedElement list \<Rightarrow> node option" where
  "headElement rs = (case rs of [] \<Rightarrow> None | r # rest \<Rightarrow> Some (element r))"

text \<open>Positions in a tree. The children of an element are
  \<^verbatim>\<open>toArray(props.children)\<close>, the children of an array are its entries, and nothing else
  has children. A position is the list of child indices that leads from the root to a
  node; \<open>nodeAt\<close> reads the node there (\<^verbatim>\<open>undefined\<close> out of range, as an index into a
  JavaScript array gives).\<close>

fun kids :: "node \<Rightarrow> node list" where
  "kids (Element t n (Some children)) = toArray children"
| "kids (Iter xs) = xs"
| "kids child = []"

fun nodeAt :: "node \<Rightarrow> nat list \<Rightarrow> node" where
  "nodeAt n [] = n"
| "nodeAt n (i # p) = (if i < length (kids n) then nodeAt (kids n ! i) p else Undefined)"

text \<open>The nodes that the sentence on completeness speaks of: the node at the position
  has the target type, and no node above it on the way from the root has it.\<close>

fun outermostMatch :: "node \<Rightarrow> target_type \<Rightarrow> nat list \<Rightarrow> bool" where
  "outermostMatch n X [] = hasKind (component X) n"
| "outermostMatch n X (i # p) =
     (\<not> hasKind (component X) n \<and> i < length (kids n) \<and> outermostMatch (kids n ! i) X p)"

text \<open>The nodes that the traversal reaches: in addition, every node above the position
  is an element whose type is not \<^verbatim>\<open>Fragment\<close> (the values that the first test of
  \<^verbatim>\<open>getAllElements\<close> lets through are those of \<open>isPrismComponent\<close>).\<close>

fun firstMatch :: "node \<Rightarrow> target_type \<Rightarrow> nat list \<Rightarrow> bool" where
  "firstMatch n X [] = hasKind (component X) n"
| "firstMatch n X (i # p) =
     (isPrismComponent n \<and> \<not> hasKind (component X) n \<and> i < length (kids n) \<and>
      firstMatch (kids n ! i) X p)"

text \<open>The positions of \<open>firstMatch\<close>, listed in pre-order.\<close>

function matchPaths :: "node \<Rightarrow> target_type \<Rightarrow> nat list list" where
  "matchPaths n X =
     (if hasKind (component X) n then [[]]
      else if \<not> isPrismComponent n then []
      else concat (map (\<lambda>i. map ((#) i) (matchPaths (kids n ! i) X)) [0..<length (kids n)]))"
  by pat_completeness auto
termination
proof (relation "measure (\<lambda>(n, X). size n)")
  fix n :: node and X :: target_type and i
  assume "i \<in> set [0..<length (kids n)]"
  then have i: "i < length (kids n)"
    by simp
  have "size (kids n ! i) < size n"
  proof (cases n)
    case (Iter xs)
    with i have "size (xs ! i) \<le> size_list size xs"
      by (intro size_list_estimation') auto
    with Iter show ?thesis by simp
  next
    case (Element t nn c)
    with i obtain children where c: "c = Some children"
      by (cases c) auto
    show ?thesis
    proof (cases children)
      case (Iter xs)
      with i Element c have "size (xs ! i) \<le> size_list size xs"
        by (intro size_list_estimation') auto
      with Iter Element c show ?thesis by simp
    qed (use i Element c in auto)
  qed (use i in auto)
  then show "((kids n ! i, X), (n, X)) \<in> measure (\<lambda>(n, X). size n)"
    by simp
qed simp

declare matchPaths.simps [simp del]

text \<open>The names given on the way to a position: at each step down, the name that the
  loop of \<^verbatim>\<open>getAllElements\<close> gives to the child taken, among its siblings.\<close>

fun segments :: "node \<Rightarrow> nat list \<Rightarrow> string list" where
  "segments n [] = []"
| "segments n (i # p) =
     (if i < length (kids n)
      then (childNames (kids n) initElementCounts ! i) # segments (kids n ! i) p
      else [])"

section \<open>\<^verbatim>\<open>getElement\<close> on an arbitrary JavaScript value\<close>

text \<open>
  The parameter type of \<^verbatim>\<open>getElement\<close> is not enforced when the code runs. The values
  below add, to those of \<open>node\<close>, the ones on which the tests of \<^verbatim>\<open>getElement\<close> take
  another way: \<^verbatim>\<open>null\<close>, a number (an integer here; \<^verbatim>\<open>NaN\<close> is left out), an object
  without a \<^verbatim>\<open>type\<close> key, and an object without \<^verbatim>\<open>props\<close>. \<open>JElement t n c\<close> is an
  object with a \<^verbatim>\<open>props\<close> object, \<open>t\<close> being its \<^verbatim>\<open>type\<close> key if it has one, \<open>n\<close> and
  \<open>c\<close> the keys \<^verbatim>\<open>name\<close> and \<^verbatim>\<open>children\<close> of the props if they are there; \<open>JBare t\<close>
  is an object whose \<^verbatim>\<open>props\<close> is \<^verbatim>\<open>undefined\<close>.
\<close>

datatype jsvalue =
    JUndefined
  | JNull
  | JBool bool
  | JStr string
  | JNum int
  | JFun
  | JArr "jsvalue list"
  | JBare "ctype option"
  | JElement "ctype option" "string option" "jsvalue option"

datatype error = TypeError

text \<open>\<^verbatim>\<open>toArray\<close> on these values: only \<^verbatim>\<open>undefined\<close> gives \<^verbatim>\<open>[]\<close>.\<close>

fun toArrayJS :: "jsvalue \<Rightarrow> jsvalue list" where
  "toArrayJS JUndefined = []"
| "toArrayJS (JArr children) = children"
| "toArrayJS child = [child]"

text \<open>
  \<^verbatim>\<open>getElement\<close>, test by test. The first test is
  \<^verbatim>\<open>!element || typeof element === 'boolean' || typeof element === 'string' ||
  !('type' in element) || element.type === Fragment\<close>: \<^verbatim>\<open>undefined\<close>, \<^verbatim>\<open>null\<close>,
  \<^verbatim>\<open>false\<close>, \<^verbatim>\<open>""\<close> and \<^verbatim>\<open>0\<close> are falsy, and the operator \<^verbatim>\<open>in\<close> throws a
  \<^verbatim>\<open>TypeError\<close> when its right operand is not an object, which of the values that get
  that far is the case for a number other than 0. The third test,
  \<^verbatim>\<open>!('children' in element.props)\<close>, throws when \<^verbatim>\<open>element.props\<close> is \<^verbatim>\<open>undefined\<close>.
  An exception of a recursive call leaves the loop.
\<close>

function getElementJS :: "jsvalue \<Rightarrow> target_type \<Rightarrow> error + jsvalue option"
  and getElementJS_loop :: "jsvalue list \<Rightarrow> target_type \<Rightarrow> error + jsvalue option" where
  "getElementJS JUndefined ty = Inr None"
| "getElementJS JNull ty = Inr None"
| "getElementJS (JBool b) ty = Inr None"
| "getElementJS (JStr s) ty = Inr None"
| "getElementJS (JNum k) ty = (if k = 0 then Inr None else Inl TypeError)"
| "getElementJS JFun ty = Inr None"
| "getElementJS (JArr xs) ty = Inr None"
| "getElementJS (JBare None) ty = Inr None"
| "getElementJS (JBare (Some t)) ty =
     (if t = Fragment then Inr None
      else if t = component ty then Inr (Some (JBare (Some t)))
      else Inl TypeError)"
| "getElementJS (JElement None n c) ty = Inr None"
| "getElementJS (JElement (Some t) n c) ty =
     (if t = Fragment then Inr None
      else if t = component ty then Inr (Some (JElement (Some t) n c))
      else (case c of
              None \<Rightarrow> Inr None
            | Some children \<Rightarrow> getElementJS_loop (toArrayJS children) ty))"
| "getElementJS_loop [] ty = Inr None"
| "getElementJS_loop (child # rest) ty =
     (case getElementJS child ty of
        Inl e \<Rightarrow> Inl e
      | Inr (Some desiredElement) \<Rightarrow> Inr (Some desiredElement)
      | Inr None \<Rightarrow> getElementJS_loop rest ty)"
  by pat_completeness auto
termination
proof (relation "measure (\<lambda>x. case x of Inl (v, ty) \<Rightarrow> size v | Inr (vs, ty) \<Rightarrow> size_list size vs)")
  fix t :: ctype and n :: "string option" and c :: "jsvalue option" and ty children
  assume "c = Some children"
  moreover have "size_list size (toArrayJS children) \<le> Suc (size children)"
    by (cases children) simp_all
  ultimately show "(Inr (toArrayJS children, ty), Inl (JElement (Some t) n c, ty))
      \<in> measure (\<lambda>x. case x of Inl (v, ty) \<Rightarrow> size v | Inr (vs, ty) \<Rightarrow> size_list size vs)"
    by simp
qed simp_all

text \<open>The values of \<open>node\<close> among the JavaScript values.\<close>

fun toValue :: "node \<Rightarrow> jsvalue" where
  "toValue Undefined = JUndefined"
| "toValue (BoolNode b) = JBool b"
| "toValue (StrNode s) = JStr s"
| "toValue Handler = JFun"
| "toValue (Iter xs) = JArr (map toValue xs)"
| "toValue (Element t n c) = JElement (Some t) n (map_option toValue c)"

text \<open>The order in which a depth-first descent meets the positions of a tree, parents
  before children and children from left to right.\<close>

fun preorderBefore :: "nat list \<Rightarrow> nat list \<Rightarrow> bool" where
  "preorderBefore [] q = (q \<noteq> [])"
| "preorderBefore (i # p) [] = False"
| "preorderBefore (i # p) (j # q) = (i < j \<or> (i = j \<and> preorderBefore p q))"

section \<open>Properties\<close>

subsection \<open>\<^verbatim>\<open>toggleStringArrayValue\<close>\<close>

lemma filter_other_than_absent: "v \<notin> set t \<Longrightarrow> filter (\<lambda>item. item \<noteq> v) t = t"
  by (induction t) auto

text \<open>
  Claim C10. \<^verbatim>\<open>toggleStringArrayValue\<close> flips the membership of the value: the value is
  in the result exactly when it was not in the input. When the value is not in the
  input, toggling it twice gives the input back. The function builds its result with
  \<^verbatim>\<open>filter\<close> and a spread, so the input array is never written to; in the model the
  input is a value and the result a new one.
\<close>

theorem toggleStringArrayValue_flips:
  "(v \<in> set (toggleStringArrayValue t v)) = (v \<notin> set t) \<and>
   (v \<notin> set t \<longrightarrow> toggleStringArrayValue (toggleStringArrayValue t v) v = t)"
  by (simp add: toggleStringArrayValue_def filter_other_than_absent)

theorem toggleStringArrayValue_flips_witness:
  "''b'' \<notin> set [''a'', ''c''] \<and>
   ''b'' \<in> set (toggleStringArrayValue [''a'', ''c''] ''b'') \<and>
   toggleStringArrayValue (toggleStringArrayValue [''a'', ''c''] ''b'') ''b'' = [''a'', ''c'']"
  using toggleStringArrayValue_flips [of "''b''" "[''a'', ''c'']"] by simp

subsection \<open>\<^verbatim>\<open>toCamelCase\<close> and \<^verbatim>\<open>toSnakeCase\<close>\<close>

lemma toSnakeCase_example: "toSnakeCase ''myCoolArea2'' = ''my_cool_area2''"
  by code_simp

lemma toCamelCase_no_tokens: "matchAll str = [] \<Longrightarrow> toCamelCase str = str"
  by (simp add: toCamelCase_def)

lemma toCamelCase_no_tokens_examples:
  "matchAll '''' = [] \<and> toCamelCase '''' = '''' \<and>
   matchAll ''$%^ _-'' = [] \<and> toCamelCase ''$%^ _-'' = ''$%^ _-''"
  by code_simp

text \<open>The four alternatives of the pattern at work: \<^verbatim>\<open>XML\<close> is an upper-case run cut
  before a capitalised word, \<^verbatim>\<open>HTML\<close> one that ends at a word boundary, \<^verbatim>\<open>x86_64\<close>
  splits at the underscore, and \<^verbatim>\<open>42\<close> is a run of digits.\<close>

lemma matchAll_alternatives:
  "matchAll ''parseXMLDocument HTML v2 x86_64 42nd'' =
     [''parse'', ''XML'', ''Document'', ''HTML'', ''v2'', ''x86'', ''64'', ''42'', ''nd''] \<and>
   toCamelCase ''parseXMLDocument HTML v2 x86_64 42nd'' = ''parseXmlDocumentHtmlV2X866442Nd'' \<and>
   toSnakeCase ''parseXMLDocument HTML v2 x86_64 42nd''
     = ''parse_xml_document_html_v2_x86_64_42_nd''"
  by code_simp

text \<open>
  Claim C7. On \<^verbatim>\<open>"MY_COOL_area2"\<close> the pattern finds the tokens \<^verbatim>\<open>M\<close>, \<^verbatim>\<open>Y\<close>, \<^verbatim>\<open>C\<close>,
  \<^verbatim>\<open>O\<close>, \<^verbatim>\<open>O\<close>, \<^verbatim>\<open>L\<close> and \<^verbatim>\<open>area2\<close>: the underscore is a word character, so no word
  boundary follows \<^verbatim>\<open>MY\<close> or \<^verbatim>\<open>COOL\<close> and the first alternative does not match
  there. \<^verbatim>\<open>toCamelCase\<close> therefore returns \<^verbatim>\<open>"mYCOOLArea2"\<close>, not \<^verbatim>\<open>"myCoolArea2"\<close>.
  The other two parts of the claim hold (\<open>toSnakeCase_example\<close>,
  \<open>toCamelCase_no_tokens\<close>).
\<close>

theorem toCamelCase_upper_snake:
  "matchAll ''MY_COOL_area2'' = [''M'', ''Y'', ''C'', ''O'', ''O'', ''L'', ''area2''] \<and>
   toCamelCase ''MY_COOL_area2'' = ''mYCOOLArea2''"
  by code_simp

subsection \<open>Name derivation\<close>

lemma counter_getElementName:
  "t \<in> set countedKinds \<Longrightarrow>
   counter t (snd (getElementName child ec)) = counter t ec + (if hasKind t child then 1 else 0)"
  by (cases child; cases "etype child") (auto simp: countedKinds_def Let_def)

lemma getElementName_default:
  "t \<in> set countedKinds \<Longrightarrow> n = None \<or> n = Some [] \<Longrightarrow>
   fst (getElementName (Element t n c) ec) = kindLabel t @ numberToString (counter t ec + 1)"
  by (auto simp: countedKinds_def Let_def)

lemma length_childNames: "length (childNames cs ec) = length cs"
  by (induction cs arbitrary: ec) (auto split: prod.splits)

lemma childNames_nth_default:
  "i < length cs \<Longrightarrow> cs ! i = Element t n c \<Longrightarrow> n = None \<or> n = Some [] \<Longrightarrow>
   t \<in> set countedKinds \<Longrightarrow>
   childNames cs ec ! i =
     kindLabel t @
     numberToString (counter t ec + 1 + int (length (filter (hasKind t) (take i cs))))"
proof (induction cs arbitrary: i ec)
  case Nil
  then show ?case by simp
next
  case (Cons x xs)
  show ?case
  proof (cases i)
    case 0
    with Cons.prems getElementName_default [of t n c ec] show ?thesis
      by (simp split: prod.splits) (metis fst_conv)
  next
    case (Suc j)
    obtain s ec' where g: "getElementName x ec = (s, ec')"
      by (cases "getElementName x ec")
    have c: "counter t ec' = counter t ec + (if hasKind t x then 1 else 0)"
      using counter_getElementName [OF Cons.prems(4), of x ec] g by simp
    have "childNames xs ec' ! j =
        kindLabel t @
        numberToString (counter t ec' + 1 + int (length (filter (hasKind t) (take j xs))))"
      using Cons.IH [of j ec'] Cons.prems Suc by simp
    then show ?thesis
      using Suc g c by (simp add: add.assoc add.commute)
  qed
qed

text \<open>
  Claim C1, as the code has it. The counters start at \<open>-1\<close>, \<^verbatim>\<open>getElementName\<close>
  increments the counter of the kind and writes the incremented value after the
  label, with no offset. So the default name of a child without a name (no
  \<^verbatim>\<open>name\<close> prop, or an empty one) is the label of its kind followed by the number of
  siblings of that kind before it, counted from 0; the labels are \<^verbatim>\<open>area\<close>,
  \<^verbatim>\<open>axis\<close>, \<^verbatim>\<open>Annotation\<close>, \<^verbatim>\<open>bar\<close>, \<^verbatim>\<open>legend\<close> and \<^verbatim>\<open>line\<close>. A sibling of the
  same kind that carries a name is counted too.
\<close>

theorem childNames_default:
  "i < length cs \<Longrightarrow> cs ! i = Element t n c \<Longrightarrow> n = None \<or> n = Some [] \<Longrightarrow>
   t \<in> set countedKinds \<Longrightarrow>
   childNames cs initElementCounts ! i =
     kindLabel t @ numberToString (int (length (filter (hasKind t) (take i cs))))"
proof -
  assume a: "i < length cs" "cs ! i = Element t n c" "n = None \<or> n = Some []"
    "t \<in> set countedKinds"
  have "counter t initElementCounts = - 1"
    using a(4) by (auto simp: countedKinds_def initElementCounts_def)
  then show ?thesis
    using childNames_nth_default [OF a, of initElementCounts] by simp
qed

theorem childNames_default_witness:
  "childNames
     [Element AxisAnnotation None None, Element Area (Some ''Sales'') None,
      Element AxisAnnotation (Some []) None, Element AxisAnnotation None None]
     initElementCounts ! 3 = ''Annotation2''"
  using childNames_default
    [of 3 "[Element AxisAnnotation None None, Element Area (Some ''Sales'') None,
            Element AxisAnnotation (Some []) None, Element AxisAnnotation None None]"
        AxisAnnotation None None]
  by (simp add: countedKinds_def) code_simp

text \<open>Claim C1 as it is written fails: three children of kind Area without a name are
  named \<^verbatim>\<open>area0\<close>, \<^verbatim>\<open>area1\<close>, \<^verbatim>\<open>area2\<close>, and the first AxisAnnotation is named
  \<^verbatim>\<open>Annotation0\<close>.\<close>

theorem childNames_three_areas:
  "childNames [Element Area None None, Element Area None None, Element Area None None]
     initElementCounts = [''area0'', ''area1'', ''area2''] \<and>
   childNames [Element Area None None, Element Area None None, Element Area None None]
     initElementCounts \<noteq> [''area1'', ''area2'', ''area3''] \<and>
   fst (getElementName (Element AxisAnnotation None None) initElementCounts) = ''Annotation0''"
  by code_simp

lemma getElementName_named:
  "t \<in> {Area, Axis, AxisAnnotation, Bar, Legend, Line, Trendline} \<Longrightarrow> s \<noteq> [] \<Longrightarrow>
   fst (getElementName (Element t (Some s) c) ec) = toCamelCase s"
  by (auto simp: Let_def)

lemma getElementName_named_example:
  "fst (getElementName (Element Area (Some ''My Custom Area'') c) ec) = ''myCustomArea''"
proof -
  have "toCamelCase ''My Custom Area'' = ''myCustomArea''"
    by code_simp
  then show ?thesis
    by (simp add: Let_def)
qed

text \<open>
  Claim C6. For an element of one of the six counted kinds or of kind Trendline whose
  \<^verbatim>\<open>name\<close> prop is a non-empty string, the name that \<^verbatim>\<open>getElementName\<close> returns is
  what \<^verbatim>\<open>toCamelCase\<close> makes of that string, whatever the counters hold
  (\<open>getElementName_named\<close>), and an Area named \<^verbatim>\<open>"My Custom Area"\<close> gets
  \<^verbatim>\<open>"myCustomArea"\<close> (\<open>getElementName_named_example\<close>). What \<^verbatim>\<open>toCamelCase\<close> returns
  is not the camel-cased name for every name, though: an Area named
  \<^verbatim>\<open>"MY_COOL_area2"\<close> gets the segment \<^verbatim>\<open>"mYCOOLArea2"\<close>, whatever its children and
  the counters, where the camel-cased name is \<^verbatim>\<open>"myCoolArea2"\<close>. The cause is the one
  of claim C7: the pattern finds no upper-case run before an underscore.
\<close>

theorem getElementName_upper_snake_name:
  "fst (getElementName (Element Area (Some ''MY_COOL_area2'') c) ec) = ''mYCOOLArea2'' \<and>
   fst (getElementName (Element Area (Some ''MY_COOL_area2'') c) ec) \<noteq> ''myCoolArea2''"
proof -
  have "toCamelCase ''MY_COOL_area2'' = ''mYCOOLArea2''"
    by code_simp
  then show ?thesis
    by (simp add: Let_def)
qed

subsection \<open>Sanitization\<close>





subsection \<open>The loops of the two traversals\<close>

lemma composeName_append: "composeName nm s = nm @ s"
  by (cases nm; cases s) (simp_all add: composeName_def)

lemma getAllElements_loop_concat:
  "getAllElements_loop cs src A nm ec des =
     des @ concat (map (\<lambda>(child, s). getAllElements child src A (nm @ s))
                    (zip cs (childNames cs ec)))"
  by (induction cs arbitrary: ec des) (auto split: prod.splits simp: composeName_append)

lemma getAllElements_loop_des:
  "getAllElements_loop cs src A nm ec des = des @ getAllElements_loop cs src A nm ec []"
  using getAllElements_loop_concat [of cs src A nm ec des]
    getAllElements_loop_concat [of cs src A nm ec "[]"]
  by simp

lemma getElement_loop_first:
  "getElement_loop cs ty =
     (case filter (\<lambda>r. r \<noteq> None) (map (\<lambda>child. getElement child ty) cs) of
        [] \<Rightarrow> None
      | r # rs \<Rightarrow> r)"
  by (induction cs) (auto split: option.splits)

lemma getElement_matches:
  "getElement n ty = Some m \<Longrightarrow> hasKind (component ty) m"
  "getElement_loop cs ty = Some m \<Longrightarrow> hasKind (component ty) m"
  by (induction n ty and cs ty rule: getElement_getElement_loop.induct)
    (auto split: if_splits option.splits)

lemma getElement_headElement:
  "getElement n ty = headElement (getAllElements n ty [] nm)"
  "getElement_loop cs ty = headElement (getAllElements_loop cs ty [] nm ec [])"
proof (induction n ty and cs ty arbitrary: nm and nm ec rule: getElement_getElement_loop.induct)
  case (6 t n c ty)
  then show ?case
    by (auto simp: headElement_def split: option.splits)
next
  case (8 child rest ty)
  obtain s ec' where g: "getElementName child ec = (s, ec')"
    by (cases "getElementName child ec")
  have l: "getAllElements_loop (child # rest) ty [] nm ec [] =
      getAllElements child ty [] (nm @ s) @ getAllElements_loop rest ty [] nm ec' []"
    using g getAllElements_loop_des [of rest ty "[]" nm ec' "getAllElements child ty [] (nm @ s)"]
    by (simp add: composeName_append)
  show ?case
  proof (cases "getElement child ty")
    case None
    then have "getAllElements child ty [] (nm @ s) = []"
      using 8(1) [of "nm @ s"] by (simp add: headElement_def split: list.splits)
    then show ?thesis
      using None l 8(2) [OF None, of nm ec'] by simp
  next
    case (Some d)
    then have "headElement (getAllElements child ty [] (nm @ s)) = Some d"
      using 8(1) [of "nm @ s"] by simp
    then show ?thesis
      using Some l by (auto simp: headElement_def split: list.splits)
  qed
qed (simp_all add: headElement_def)

subsection \<open>\<^verbatim>\<open>getElement\<close> and \<^verbatim>\<open>getAllElements\<close>\<close>

text \<open>
  Claim C9. \<^verbatim>\<open>getElement(T, X)\<close> is \<^verbatim>\<open>undefined\<close> exactly when
  \<^verbatim>\<open>getAllElements(T, X, [], "")\<close> is empty, and when the latter is not empty,
  \<^verbatim>\<open>getElement(T, X)\<close> is the \<^verbatim>\<open>element\<close> field of its first record.
\<close>

theorem getElement_head_of_getAllElements:
  "(getElement T X = None) = (getAllElements T X [] [] = []) \<and>
   (getAllElements T X [] [] \<noteq> [] \<longrightarrow>
      getElement T X = Some (element (hd (getAllElements T X [] []))))"
  using getElement_headElement(1) [of T X "[]"]
  by (cases "getAllElements T X [] []") (simp_all add: headElement_def)

theorem getElement_head_of_getAllElements_witness:
  "getAllElements
     (Element (Component ''Prism'') None
        (Some (Iter [Element Bar None (Some (Element ChartTooltip None (Some Handler))),
                     Element Line None (Some (Element ChartTooltip None None))])))
     TChartTooltip [] []
   = [\<lparr>name = ''bar0'', element = Element ChartTooltip None (Some Handler)\<rparr>,
      \<lparr>name = ''line0'', element = Element ChartTooltip None None\<rparr>] \<and>
   getElement
     (Element (Component ''Prism'') None
        (Some (Iter [Element Bar None (Some (Element ChartTooltip None (Some Handler))),
                     Element Line None (Some (Element ChartTooltip None None))])))
     TChartTooltip
   = Some (Element ChartTooltip None (Some Handler))"
proof -
  have e: "getAllElements
     (Element (Component ''Prism'') None
        (Some (Iter [Element Bar None (Some (Element ChartTooltip None (Some Handler))),
                     Element Line None (Some (Element ChartTooltip None None))])))
     TChartTooltip [] []
   = [\<lparr>name = ''bar0'', element = Element ChartTooltip None (Some Handler)\<rparr>,
      \<lparr>name = ''line0'', element = Element ChartTooltip None None\<rparr>]"
    by code_simp
  show ?thesis
    using getElement_head_of_getAllElements
      [of "Element (Component ''Prism'') None
        (Some (Iter [Element Bar None (Some (Element ChartTooltip None (Some Handler))),
                     Element Line None (Some (Element ChartTooltip None None))]))" TChartTooltip]
    unfolding e by simp
qed

subsection \<open>The accumulator of \<^verbatim>\<open>getAllElements\<close>\<close>

text \<open>
  Claim C3. With a non-empty accumulator the loop passes the accumulator to every
  child, pushes each child's whole result (accumulator included) onto
  \<^verbatim>\<open>desiredElements\<close>, and the final return puts the accumulator in front once more.
  For a root with one child that neither matches nor has children, and the
  accumulator \<^verbatim>\<open>[a]\<close>, the result is \<^verbatim>\<open>[a, a]\<close>; the claim says \<^verbatim>\<open>[a]\<close>.
\<close>

theorem getAllElements_accumulator_twice:
  "getAllElements
     (Element (Component ''Prism'') None (Some (Iter [Element Line None None])))
     TAxis [\<lparr>name = ''axis0'', element = Element Axis None None\<rparr>] []
   = [\<lparr>name = ''axis0'', element = Element Axis None None\<rparr>,
      \<lparr>name = ''axis0'', element = Element Axis None None\<rparr>]"
  by code_simp

subsection \<open>The records of \<^verbatim>\<open>getAllElements\<close>, position by position\<close>

lemma zip_nth_upt:
  "length xs = length ys \<Longrightarrow> zip xs ys = map (\<lambda>i. (xs ! i, ys ! i)) [0..<length xs]"
  by (rule nth_equalityI) simp_all

lemma hasKind_getAllElements:
  "hasKind (component X) n \<Longrightarrow> getAllElements n X A nm = A @ [\<lparr>name = nm, element = n\<rparr>]"
  by (cases n; cases X) auto

lemma not_prism_getAllElements:
  "\<not> isPrismComponent n \<Longrightarrow> getAllElements n X A nm = A"
  by (cases n) auto

lemma descend_getAllElements:
  "isPrismComponent n \<Longrightarrow> \<not> hasKind (component X) n \<Longrightarrow>
   getAllElements n X A nm =
     A @ concat (map (\<lambda>i. getAllElements (kids n ! i) X A
                           (nm @ childNames (kids n) initElementCounts ! i))
                  [0..<length (kids n)])"
proof (cases n)
  case (Element t nn c)
  assume a: "isPrismComponent n" "\<not> hasKind (component X) n"
  show ?thesis
  proof (cases c)
    case None
    with Element a show ?thesis by simp
  next
    case (Some children)
    have "getAllElements n X A nm =
        A @ getAllElements_loop (toArray children) X A nm initElementCounts []"
      using Element a Some by simp
    also have "\<dots> = A @ concat (map (\<lambda>(child, s). getAllElements child X A (nm @ s))
          (zip (kids n) (childNames (kids n) initElementCounts)))"
      using Element Some by (simp add: getAllElements_loop_concat)
    also have "zip (kids n) (childNames (kids n) initElementCounts) =
        map (\<lambda>i. (kids n ! i, childNames (kids n) initElementCounts ! i)) [0..<length (kids n)]"
      by (rule zip_nth_upt) (simp add: length_childNames)
    finally show ?thesis
      by (simp add: comp_def)
  qed
qed auto

lemma getAllElements_paths:
  "getAllElements n X [] nm =
     map (\<lambda>p. \<lparr>name = nm @ concat (segments n p), element = nodeAt n p\<rparr>) (matchPaths n X)"
proof (induction n X arbitrary: nm rule: matchPaths.induct)
  case (1 n X)
  show ?case
  proof (cases "hasKind (component X) n")
    case True
    then show ?thesis
      by (subst matchPaths.simps) (simp add: hasKind_getAllElements)
  next
    case False
    show ?thesis
    proof (cases "isPrismComponent n")
      case np: False
      with False show ?thesis
        by (subst matchPaths.simps) (simp add: not_prism_getAllElements)
    next
      case True
      let ?F = "\<lambda>p. \<lparr>name = nm @ concat (segments n p), element = nodeAt n p\<rparr>"
      have mp: "matchPaths n X =
          concat (map (\<lambda>i. map ((#) i) (matchPaths (kids n ! i) X)) [0..<length (kids n)])"
        using True False by (subst matchPaths.simps) simp
      have rhs: "map ?F (matchPaths n X) =
          concat (map (\<lambda>i. map (\<lambda>p. ?F (i # p)) (matchPaths (kids n ! i) X))
            [0..<length (kids n)])"
        by (subst mp) (simp only: map_concat map_map o_def)
      have lhs: "getAllElements n X [] nm =
          concat (map (\<lambda>i. getAllElements (kids n ! i) X []
            (nm @ childNames (kids n) initElementCounts ! i)) [0..<length (kids n)])"
        using True False by (simp add: descend_getAllElements)
      have "getAllElements (kids n ! i) X [] (nm @ childNames (kids n) initElementCounts ! i) =
          map (\<lambda>p. ?F (i # p)) (matchPaths (kids n ! i) X)"
        if "i \<in> set [0..<length (kids n)]" for i
        using "1.IH" [OF False _ that, of "nm @ childNames (kids n) initElementCounts ! i"] True that
        by simp
      then have "map (\<lambda>i. getAllElements (kids n ! i) X []
            (nm @ childNames (kids n) initElementCounts ! i)) [0..<length (kids n)] =
          map (\<lambda>i. map (\<lambda>p. ?F (i # p)) (matchPaths (kids n ! i) X)) [0..<length (kids n)]"
        by (intro map_cong refl)
      then show ?thesis
        by (simp only: lhs rhs)
    qed
  qed
qed

lemma matchPaths_match: "hasKind (component X) n \<Longrightarrow> matchPaths n X = [[]]"
  by (subst matchPaths.simps) simp

lemma matchPaths_stop:
  "\<not> hasKind (component X) n \<Longrightarrow> \<not> isPrismComponent n \<Longrightarrow> matchPaths n X = []"
  by (subst matchPaths.simps) simp

lemma matchPaths_descend:
  "\<not> hasKind (component X) n \<Longrightarrow> isPrismComponent n \<Longrightarrow>
   matchPaths n X =
     concat (map (\<lambda>i. map ((#) i) (matchPaths (kids n ! i) X)) [0..<length (kids n)])"
  by (subst matchPaths.simps) simp

lemma matchPaths_firstMatch: "p \<in> set (matchPaths n X) \<longleftrightarrow> firstMatch n X p"
proof (induction n X arbitrary: p rule: matchPaths.induct)
  case (1 n X)
  show ?case
  proof (cases "hasKind (component X) n")
    case True
    then show ?thesis by (cases p) (auto simp: matchPaths_match)
  next
    case False
    show ?thesis
    proof (cases "isPrismComponent n")
      case np: False
      with False show ?thesis by (cases p) (auto simp: matchPaths_stop)
    next
      case True
      show ?thesis
      proof (cases p)
        case Nil
        with True False show ?thesis by (auto simp: matchPaths_descend)
      next
        case (Cons i q)
        have "p \<in> set (matchPaths n X) \<longleftrightarrow>
            i < length (kids n) \<and> q \<in> set (matchPaths (kids n ! i) X)"
          using True False Cons by (auto simp: matchPaths_descend)
        also have "\<dots> \<longleftrightarrow> i < length (kids n) \<and> firstMatch (kids n ! i) X q"
          using "1.IH" [OF False _ , of i q] True by auto
        finally show ?thesis using True False Cons by simp
      qed
    qed
  qed
qed

lemma distinct_concat_indexed:
  "(\<And>i. i < k \<Longrightarrow> distinct (f i)) \<Longrightarrow>
   distinct (concat (map (\<lambda>i. map ((#) i) (f i)) [0..<k]))"
proof (induction k)
  case 0
  then show ?case by simp
next
  case (Suc k)
  then have "distinct (concat (map (\<lambda>i. map ((#) i) (f i)) [0..<k]))" by simp
  moreover have "distinct (map ((#) k) (f k))"
    using Suc.prems [of k] by (simp add: distinct_map)
  ultimately show ?case by auto
qed

lemma distinct_matchPaths: "distinct (matchPaths n X)"
proof (induction n X rule: matchPaths.induct)
  case (1 n X)
  show ?case
  proof (cases "hasKind (component X) n \<or> \<not> isPrismComponent n")
    case True
    then show ?thesis
      by (cases "hasKind (component X) n") (auto simp: matchPaths_match matchPaths_stop)
  next
    case False
    then have "distinct (concat (map (\<lambda>i. map ((#) i) (matchPaths (kids n ! i) X))
        [0..<length (kids n)]))"
      using "1.IH" by (intro distinct_concat_indexed) auto
    with False show ?thesis by (simp add: matchPaths_descend)
  qed
qed

lemma firstMatch_outermostMatch: "firstMatch n X p \<Longrightarrow> outermostMatch n X p"
  by (induction n X p rule: firstMatch.induct) auto

text \<open>\<open>firstMatch\<close> without recursion: the node at the position has the target type, and
  the node at every proper prefix of the position is an element whose type is neither
  \<^verbatim>\<open>Fragment\<close> nor the target type.\<close>

lemma firstMatch_iff:
  "firstMatch n X p \<longleftrightarrow>
     hasKind (component X) (nodeAt n p) \<and>
     (\<forall>q. strict_prefix q p \<longrightarrow>
        isPrismComponent (nodeAt n q) \<and> \<not> hasKind (component X) (nodeAt n q))"
proof (induction p arbitrary: n)
  case Nil
  then show ?case by simp
next
  case (Cons i p)
  have sp: "strict_prefix q (i # p) \<longleftrightarrow> q = [] \<or> (\<exists>r. q = i # r \<and> strict_prefix r p)" for q
    by (cases q) auto
  show ?case
  proof (cases "i < length (kids n)")
    case True
    then show ?thesis
      using Cons.IH [of "kids n ! i"] by (auto simp: sp)
  next
    case False
    then show ?thesis
      by simp
  qed
qed

text \<open>
  Claim C2, as the code has it. \<^verbatim>\<open>getAllElements(T, X, [], "")\<close> holds exactly one
  record for each position of \<open>T\<close> whose node has type \<open>X\<close> and above which, on the
  way from the root, every node is an element whose type is neither \<open>X\<close> nor
  \<^verbatim>\<open>Fragment\<close>, and it holds no other record: \<open>matchPaths T X\<close> lists these positions
  without repetition, and the elements of the records are, in order, the nodes at
  the listed positions. Each such node is one that the claim names (its type is \<open>X\<close>
  and no node above it has type \<open>X\<close>).
\<close>

theorem getAllElements_complete:
  "distinct (matchPaths T X) \<and>
   set (matchPaths T X) = {p. firstMatch T X p} \<and>
   map element (getAllElements T X [] []) = map (nodeAt T) (matchPaths T X) \<and>
   set (matchPaths T X) \<subseteq> {p. outermostMatch T X p}"
  using getAllElements_paths [of T X "[]"]
  by (auto simp: distinct_matchPaths matchPaths_firstMatch firstMatch_outermostMatch comp_def)

theorem getAllElements_complete_witness:
  "firstMatch
     (Element (Component ''Prism'') None
        (Some (Iter [Element Legend None None, Element Axis (Some ''x'') None,
                     Element Fragment None (Some (Element Axis None None)),
                     Element Bar None (Some (Element Axis None (Some (Element Axis None None))))])))
     TAxis [3, 0] \<and>
   map element (getAllElements
     (Element (Component ''Prism'') None
        (Some (Iter [Element Legend None None, Element Axis (Some ''x'') None,
                     Element Fragment None (Some (Element Axis None None)),
                     Element Bar None (Some (Element Axis None (Some (Element Axis None None))))])))
     TAxis [] [])
   = [Element Axis (Some ''x'') None, Element Axis None (Some (Element Axis None None))]"
proof -
  have "matchPaths
     (Element (Component ''Prism'') None
        (Some (Iter [Element Legend None None, Element Axis (Some ''x'') None,
                     Element Fragment None (Some (Element Axis None None)),
                     Element Bar None (Some (Element Axis None (Some (Element Axis None None))))])))
     TAxis = [[1], [3, 0]]"
    by code_simp
  then show ?thesis
    using getAllElements_complete
      [of "Element (Component ''Prism'') None
        (Some (Iter [Element Legend None None, Element Axis (Some ''x'') None,
                     Element Fragment None (Some (Element Axis None None)),
                     Element Bar None (Some (Element Axis None (Some (Element Axis None None))))]))"
          TAxis]
    by simp
qed

text \<open>Claim C2 as it is written fails: an Axis below a \<^verbatim>\<open>Fragment\<close> is a node of the
  tree with the target type and with no Axis above it, and the result has no record
  for it, as the traversal stops at the \<^verbatim>\<open>Fragment\<close>.\<close>

theorem getAllElements_stops_at_Fragment:
  "outermostMatch
     (Element (Component ''Prism'') None
        (Some (Iter [Element Fragment None (Some (Iter [Element Axis None None]))])))
     TAxis [0, 0] \<and>
   nodeAt
     (Element (Component ''Prism'') None
        (Some (Iter [Element Fragment None (Some (Iter [Element Axis None None]))])))
     [0, 0] = Element Axis None None \<and>
   getAllElements
     (Element (Component ''Prism'') None
        (Some (Iter [Element Fragment None (Some (Iter [Element Axis None None]))])))
     TAxis [] [] = []"
  by code_simp

text \<open>
  Claim C4, as the code has it. The name of a record of
  \<^verbatim>\<open>getAllElements(T, X, [], "")\<close> is the concatenation, from the root down and with no
  separator, of the names given to the nodes on the way from the root to the matched
  node, the matched node included and the root, which is given no name, excluded.
  A name that is empty adds nothing. The name given to a node is the one that
  \<^verbatim>\<open>getElementName\<close> gives it among its siblings.
\<close>

theorem getAllElements_names:
  "getAllElements T X [] [] =
     map (\<lambda>p. \<lparr>name = concat (segments T p), element = nodeAt T p\<rparr>) (matchPaths T X) \<and>
   set (matchPaths T X) = {p. firstMatch T X p}"
  using getAllElements_paths [of T X "[]"]
  by (auto simp: matchPaths_firstMatch)

theorem getAllElements_names_witness:
  "segments
     (Element (Component ''Prism'') None
        (Some (Iter [Element Line None None,
                     Element Bar (Some ''My Bar'') (Some (Iter [StrNode ''text'',
                       Element Trendline None (Some (Element ChartTooltip None (Some Handler)))])),
                     Element Line None (Some (Element ChartTooltip None (Some Handler)))])))
     [1, 1, 0] = [''myBar'', ''Trendline'', ''''] \<and>
   getAllElements
     (Element (Component ''Prism'') None
        (Some (Iter [Element Line None None,
                     Element Bar (Some ''My Bar'') (Some (Iter [StrNode ''text'',
                       Element Trendline None (Some (Element ChartTooltip None (Some Handler)))])),
                     Element Line None (Some (Element ChartTooltip None (Some Handler)))])))
     TChartTooltip [] []
   = [\<lparr>name = ''myBarTrendline'', element = Element ChartTooltip None (Some Handler)\<rparr>,
      \<lparr>name = ''line1'', element = Element ChartTooltip None (Some Handler)\<rparr>]"
proof -
  let ?T = "Element (Component ''Prism'') None
        (Some (Iter [Element Line None None,
                     Element Bar (Some ''My Bar'') (Some (Iter [StrNode ''text'',
                       Element Trendline None (Some (Element ChartTooltip None (Some Handler)))])),
                     Element Line None (Some (Element ChartTooltip None (Some Handler)))]))"
  have m: "matchPaths ?T TChartTooltip = [[1, 1, 0], [2, 0]]"
    by code_simp
  have s: "segments ?T [1, 1, 0] = [''myBar'', ''Trendline'', '''']"
    "segments ?T [2, 0] = [''line1'', '''']"
    by code_simp+
  have n: "nodeAt ?T [1, 1, 0] = Element ChartTooltip None (Some Handler)"
    "nodeAt ?T [2, 0] = Element ChartTooltip None (Some Handler)"
    by code_simp+
  show ?thesis
    using getAllElements_names [of ?T TChartTooltip]
    unfolding m by (simp only: s n list.map concat.simps append.simps simp_thms)
qed

text \<open>Claim C4 as it is written fails: the name of the record of a matched Line is the
  name given to the Line itself, \<^verbatim>\<open>line0\<close>, while the names given above it (the root
  has none) concatenate to the empty string.\<close>

theorem getAllElements_own_segment:
  "getAllElements
     (Element (Component ''Prism'') None (Some (Iter [Element Line None None]))) TLine [] []
   = [\<lparr>name = ''line0'', element = Element Line None None\<rparr>] \<and>
   matchPaths
     (Element (Component ''Prism'') None (Some (Iter [Element Line None None]))) TLine = [[0]] \<and>
   segments
     (Element (Component ''Prism'') None (Some (Iter [Element Line None None]))) [0]
   = [''line0''] \<and>
   concat (butlast (segments
     (Element (Component ''Prism'') None (Some (Iter [Element Line None None]))) [0])) = '''' \<and>
   name (hd (getAllElements
     (Element (Component ''Prism'') None (Some (Iter [Element Line None None]))) TLine [] []))
   \<noteq> concat (butlast (segments
     (Element (Component ''Prism'') None (Some (Iter [Element Line None None]))) [0]))"
  by code_simp


subsection \<open>\<^verbatim>\<open>getElement\<close>\<close>

lemma toArrayJS_toValue: "toArrayJS (toValue c) = map toValue (toArray c)"
  by (cases c) simp_all

lemma getElementJS_toValue:
  "getElementJS (toValue n) ty = Inr (map_option toValue (getElement n ty))"
  "getElementJS_loop (map toValue cs) ty = Inr (map_option toValue (getElement_loop cs ty))"
  by (induction n ty and cs ty rule: getElement_getElement_loop.induct)
    (auto simp: toArrayJS_toValue split: option.splits)

lemma getElement_first_path:
  "getElement n ty = (case matchPaths n ty of [] \<Rightarrow> None | p # ps \<Rightarrow> Some (nodeAt n p))"
  using getElement_headElement(1) [of n ty "[]"] getAllElements_paths [of n ty "[]"]
  by (simp add: headElement_def split: list.splits)

lemma sorted_concat_indexed:
  "(\<And>i. i < k \<Longrightarrow> sorted_wrt preorderBefore (f i)) \<Longrightarrow>
   sorted_wrt preorderBefore (concat (map (\<lambda>i. map ((#) i) (f i)) [0..<k]))"
proof (induction k)
  case 0
  then show ?case by simp
next
  case (Suc k)
  then have "sorted_wrt preorderBefore (concat (map (\<lambda>i. map ((#) i) (f i)) [0..<k]))"
    by simp
  moreover have "sorted_wrt preorderBefore (map ((#) k) (f k))"
    using Suc.prems [of k] by (simp add: sorted_wrt_map)
  ultimately show ?case
    by (auto simp: sorted_wrt_append)
qed

lemma sorted_matchPaths: "sorted_wrt preorderBefore (matchPaths n X)"
proof (induction n X rule: matchPaths.induct)
  case (1 n X)
  show ?case
  proof (cases "hasKind (component X) n \<or> \<not> isPrismComponent n")
    case True
    then show ?thesis
      by (cases "hasKind (component X) n") (auto simp: matchPaths_match matchPaths_stop)
  next
    case False
    then have "sorted_wrt preorderBefore
        (concat (map (\<lambda>i. map ((#) i) (matchPaths (kids n ! i) X)) [0..<length (kids n)]))"
      using "1.IH" by (intro sorted_concat_indexed) auto
    with False show ?thesis
      by (simp add: matchPaths_descend)
  qed
qed

text \<open>
  Claim C5, as the code has it. On every value of the declared parameter type
  (\<^verbatim>\<open>undefined\<close>, a boolean, a string, a handler function, an array, an element with
  props) \<^verbatim>\<open>getElement\<close> returns, without an exception, \<^verbatim>\<open>undefined\<close> or an element,
  where \<open>getElementJS\<close> is the function on any JavaScript value, which does have
  branches that throw. The result is the node at the first position, in the order
  of a depth-first descent, whose node has the target type and above which every
  node is an element with a type that is neither \<^verbatim>\<open>Fragment\<close> nor the target type;
  it is \<^verbatim>\<open>undefined\<close> when there is no such position. In particular
  \<^verbatim>\<open>getElement\<close> returns \<^verbatim>\<open>undefined\<close> for \<^verbatim>\<open>undefined\<close>, a boolean, a string, a value
  without a \<^verbatim>\<open>type\<close> key and a \<^verbatim>\<open>Fragment\<close>, and the node itself when its type is the
  target type, whatever its children: of an Axis inside an Axis the outer one is
  returned.
\<close>

theorem getElementJS_on_nodes:
  "getElementJS (toValue node) ty = Inr (map_option toValue (getElement node ty)) \<and>
   getElementJS (toValue node) ty =
     Inr (case matchPaths node ty of [] \<Rightarrow> None | p # ps \<Rightarrow> Some (toValue (nodeAt node p))) \<and>
   sorted_wrt preorderBefore (matchPaths node ty) \<and>
   set (matchPaths node ty) = {p. firstMatch node ty p} \<and>
   getElementJS JUndefined ty = Inr None \<and>
   getElementJS (JBool b) ty = Inr None \<and>
   getElementJS (JStr s) ty = Inr None \<and>
   getElementJS JFun ty = Inr None \<and>
   getElementJS (JArr vs) ty = Inr None \<and>
   getElementJS (JBare None) ty = Inr None \<and>
   getElementJS (JElement None n c) ty = Inr None \<and>
   getElementJS (JElement (Some Fragment) n c) ty = Inr None \<and>
   getElementJS (JElement (Some (component ty)) n c) ty
     = Inr (Some (JElement (Some (component ty)) n c)) \<and>
   getElementJS (JElement (Some Axis) n (Some (JElement (Some Axis) n' c'))) TAxis
     = Inr (Some (JElement (Some Axis) n (Some (JElement (Some Axis) n' c'))))"
proof -
  have "component ty \<noteq> Fragment"
    by (cases ty) simp_all
  moreover have "getElementJS (toValue node) ty =
      Inr (case matchPaths node ty of [] \<Rightarrow> None | p # ps \<Rightarrow> Some (toValue (nodeAt node p)))"
    by (simp add: getElementJS_toValue(1) getElement_first_path split: list.splits)
  ultimately show ?thesis
    by (simp add: getElementJS_toValue(1) sorted_matchPaths) (auto simp: matchPaths_firstMatch)
qed

theorem getElementJS_on_nodes_witness:
  "firstMatch
     (Element (Component ''Prism'') None
        (Some (Iter [StrNode ''title'', Element Fragment None (Some (Element Axis None None)),
                     Element Line None None,
                     Element Bar None (Some (Element Axis (Some ''inner'') None)),
                     Element Axis (Some ''last'') None])))
     TAxis [3, 0] \<and>
   preorderBefore [3, 0] [4] \<and>
   getElementJS
     (toValue (Element (Component ''Prism'') None
        (Some (Iter [StrNode ''title'', Element Fragment None (Some (Element Axis None None)),
                     Element Line None None,
                     Element Bar None (Some (Element Axis (Some ''inner'') None)),
                     Element Axis (Some ''last'') None]))))
     TAxis
   = Inr (Some (JElement (Some Axis) (Some ''inner'') None))"
proof -
  let ?T = "Element (Component ''Prism'') None
        (Some (Iter [StrNode ''title'', Element Fragment None (Some (Element Axis None None)),
                     Element Line None None,
                     Element Bar None (Some (Element Axis (Some ''inner'') None)),
                     Element Axis (Some ''last'') None]))"
  have m: "matchPaths ?T TAxis = [[3, 0], [4]]"
    by code_simp
  have n: "toValue (nodeAt ?T [3, 0]) = JElement (Some Axis) (Some ''inner'') None"
    by code_simp
  have "getElementJS (toValue ?T) TAxis = Inr (Some (toValue (nodeAt ?T [3, 0])))"
    and "sorted_wrt preorderBefore (matchPaths ?T TAxis)"
    and "set (matchPaths ?T TAxis) = {p. firstMatch ?T TAxis p}"
    using getElementJS_on_nodes [of ?T TAxis] unfolding m by simp_all
  then show ?thesis
    unfolding m n by auto
qed

text \<open>Claim C5 as it is written fails: on a number other than 0 the test
  \<^verbatim>\<open>'type' in element\<close> throws a \<^verbatim>\<open>TypeError\<close>, on an element without props, whose
  type is neither \<^verbatim>\<open>Fragment\<close> nor the target type, the test
  \<^verbatim>\<open>'children' in element.props\<close> does, and so does the search of an element one of
  whose children is such a value.\<close>

theorem getElementJS_throws:
  "getElementJS (JNum 5) TAxis = Inl TypeError \<and>
   getElementJS (JBare (Some Line)) TAxis = Inl TypeError \<and>
   getElementJS (JElement (Some Bar) None (Some (JArr [JNull, JNum 0, JNum 7]))) TAxis
     = Inl TypeError"
  by simp

end
